theory Spec2Isabelle
  imports Main
begin

section \<open>Event suggestions: votes, comments and promotion into events\<close>

text \<open>
  The development follows the event-suggestion bundle of \<^verbatim>\<open>src/pages/Directory.tsx\<close>:
  the component \<^verbatim>\<open>components/EventSuggestions.tsx\<close> (\<^verbatim>\<open>fetchSuggestions\<close>,
  \<^verbatim>\<open>handleVote\<close>, \<^verbatim>\<open>handleComment\<close>), the page \<^verbatim>\<open>pages/suggest-event.tsx\<close>
  (\<^verbatim>\<open>handleSubmit\<close>), the endpoint \<^verbatim>\<open>pages/api/promote-suggestions.ts\<close> (\<^verbatim>\<open>handler\<close>)
  and the tables of \<^verbatim>\<open>supabase_migrations.sql\<close>.

  The database is a value of type \<open>db\<close> that every operation takes and returns. A table
  is the list of its rows in storage order. Each request to the database is one function;
  its first argument \<open>fault\<close> is the error the storage layer reports for reasons that
  the rows alone do not decide (transport, access policy, a collision of a generated
  identifier). A request that reports an error leaves the database as it was.
\<close>

subsection \<open>Values\<close>

type_synonym uuid = string

text \<open>A JavaScript string is its list of UTF-16 code units.\<close>

type_synonym js_string = "nat list"

type_synonym timestamptz = nat

text \<open>
  \<^verbatim>\<open>!x\<close> for a value that is a string or absent: true for \<^verbatim>\<open>undefined\<close>, \<^verbatim>\<open>null\<close>
  and the empty string.
\<close>

fun js_not :: "'a list option \<Rightarrow> bool" where
  "js_not None = True"
| "js_not (Some s) = (s = [])"

text \<open>
  \<^verbatim>\<open>String.prototype.trim\<close> removes the WhiteSpace and LineTerminator code units of
  ECMAScript from both ends.
\<close>

definition js_whitespace :: "nat \<Rightarrow> bool" where
  "js_whitespace c =
     (c \<in> set [9, 10, 11, 12, 13, 32, 160, 5760, 8192, 8193, 8194, 8195, 8196, 8197,
               8198, 8199, 8200, 8201, 8202, 8232, 8233, 8239, 8287, 12288, 65279])"

definition js_trim :: "js_string \<Rightarrow> js_string" where
  "js_trim s = rev (dropWhile js_whitespace (rev (dropWhile js_whitespace s)))"

text \<open>
  A JavaScript number as far as the threshold needs it: an integer, or \<^verbatim>\<open>NaN\<close>, with
  which every comparison is false.
\<close>

datatype js_number = Num int | NaN

fun js_ge :: "nat \<Rightarrow> js_number \<Rightarrow> bool" where
  "js_ge n (Num t) = (t \<le> int n)"
| "js_ge n NaN = False"

subsection \<open>Tables\<close>

text \<open>
  The rows of \<^verbatim>\<open>supabase_migrations.sql\<close>. A column without \<^verbatim>\<open>NOT NULL\<close> that the
  application can leave empty is an option; \<^verbatim>\<open>id\<close> and \<^verbatim>\<open>created_at\<close> are filled by
  their defaults. An event row is the record the promotion endpoint inserts
  (\<open>event_insert\<close>) together with the two defaulted columns.
\<close>

record event_insert =
  title :: js_string
  description :: "js_string option"
  location :: "js_string option"
  event_date :: "js_string option"
  organizer_id :: "uuid option"

record event_row = event_insert +
  ev_id :: uuid
  ev_created_at :: timestamptz

record suggestion_row =
  sg_id :: uuid
  sg_title :: js_string
  sg_description :: "js_string option"
  sg_location :: "js_string option"
  proposed_date :: "js_string option"
  created_by :: "uuid option"
  sg_created_at :: timestamptz

record vote_row =
  v_id :: uuid
  suggestion_id :: "uuid option"
  voter_id :: "uuid option"
  v_created_at :: timestamptz

record comment_row =
  c_id :: uuid
  c_suggestion_id :: "uuid option"
  commenter_id :: "uuid option"
  content :: js_string
  c_created_at :: timestamptz

record db =
  events :: "event_row list"
  event_suggestions :: "suggestion_row list"
  event_votes :: "vote_row list"
  event_comments :: "comment_row list"

definition empty_db :: db where
  "empty_db = \<lparr>events = [], event_suggestions = [], event_votes = [], event_comments = []\<rparr>"

text \<open>
  What the storage layer reports: a violated constraint of the migration, or a failure
  from outside with its message.
\<close>

datatype pg_error = unique_violation | foreign_key_violation | Failure string

subsection \<open>Requests to the database\<close>

text \<open>
  \<^verbatim>\<open>from('event_votes').select('*').eq('suggestion_id', s).eq('voter_id', u).limit(1)\<close>
\<close>

definition vote_rows :: "db \<Rightarrow> uuid \<Rightarrow> uuid \<Rightarrow> vote_row list" where
  "vote_rows d s u =
     filter (\<lambda>r. suggestion_id r = Some s \<and> voter_id r = Some u) (event_votes d)"

definition event_votes_select :: "pg_error option \<Rightarrow> uuid \<Rightarrow> uuid \<Rightarrow> db \<Rightarrow> pg_error + vote_row list" where
  "event_votes_select fault s u d =
     (case fault of Some e \<Rightarrow> Inl e | None \<Rightarrow> Inr (take 1 (vote_rows d s u)))"

text \<open>
  \<^verbatim>\<open>from('event_votes').insert([{ suggestion_id, voter_id }])\<close>, with the foreign key to
  \<^verbatim>\<open>event_suggestions(id)\<close> and \<^verbatim>\<open>UNIQUE (suggestion_id, voter_id)\<close>.
\<close>

definition event_votes_insert ::
  "pg_error option \<Rightarrow> uuid \<Rightarrow> timestamptz \<Rightarrow> uuid \<Rightarrow> uuid \<Rightarrow> db \<Rightarrow> pg_error + db" where
  "event_votes_insert fault new_id now s u d =
     (case fault of
        Some e \<Rightarrow> Inl e
      | None \<Rightarrow>
          if s \<notin> sg_id ` set (event_suggestions d) then Inl foreign_key_violation
          else if vote_rows d s u \<noteq> [] then Inl unique_violation
          else Inr (d\<lparr>event_votes := event_votes d @
                 [\<lparr>v_id = new_id, suggestion_id = Some s, voter_id = Some u,
                   v_created_at = now\<rparr>]\<rparr>))"

text \<open>
  \<^verbatim>\<open>from('event_votes').delete().eq('suggestion_id', s).eq('voter_id', u)\<close>
\<close>

definition event_votes_delete_pair :: "pg_error option \<Rightarrow> uuid \<Rightarrow> uuid \<Rightarrow> db \<Rightarrow> pg_error + db" where
  "event_votes_delete_pair fault s u d =
     (case fault of
        Some e \<Rightarrow> Inl e
      | None \<Rightarrow> Inr (d\<lparr>event_votes :=
          filter (\<lambda>r. \<not> (suggestion_id r = Some s \<and> voter_id r = Some u)) (event_votes d)\<rparr>))"

text \<open>\<^verbatim>\<open>from('event_votes').delete().eq('suggestion_id', s)\<close>\<close>

definition event_votes_delete :: "pg_error option \<Rightarrow> uuid \<Rightarrow> db \<Rightarrow> pg_error + db" where
  "event_votes_delete fault s d =
     (case fault of
        Some e \<Rightarrow> Inl e
      | None \<Rightarrow> Inr (d\<lparr>event_votes :=
          filter (\<lambda>r. suggestion_id r \<noteq> Some s) (event_votes d)\<rparr>))"

text \<open>
  \<^verbatim>\<open>from('event_comments').insert([{ suggestion_id, content, commenter_id }])\<close>, with
  the foreign key to \<^verbatim>\<open>event_suggestions(id)\<close>.
\<close>

definition event_comments_insert ::
  "pg_error option \<Rightarrow> uuid \<Rightarrow> timestamptz \<Rightarrow> uuid \<Rightarrow> js_string \<Rightarrow> uuid \<Rightarrow> db \<Rightarrow> pg_error + db" where
  "event_comments_insert fault new_id now s text u d =
     (case fault of
        Some e \<Rightarrow> Inl e
      | None \<Rightarrow>
          if s \<notin> sg_id ` set (event_suggestions d) then Inl foreign_key_violation
          else Inr (d\<lparr>event_comments := event_comments d @
                 [\<lparr>c_id = new_id, c_suggestion_id = Some s, commenter_id = Some u,
                   content = text, c_created_at = now\<rparr>]\<rparr>))"

text \<open>\<^verbatim>\<open>from('event_comments').delete().eq('suggestion_id', s)\<close>\<close>

definition event_comments_delete :: "pg_error option \<Rightarrow> uuid \<Rightarrow> db \<Rightarrow> pg_error + db" where
  "event_comments_delete fault s d =
     (case fault of
        Some e \<Rightarrow> Inl e
      | None \<Rightarrow> Inr (d\<lparr>event_comments :=
          filter (\<lambda>r. c_suggestion_id r \<noteq> Some s) (event_comments d)\<rparr>))"

text \<open>\<^verbatim>\<open>from('event_suggestions').insert([payload])\<close>\<close>

definition event_suggestions_insert ::
  "pg_error option \<Rightarrow> uuid \<Rightarrow> timestamptz \<Rightarrow> js_string \<Rightarrow> js_string option \<Rightarrow> js_string option \<Rightarrow>
   js_string option \<Rightarrow> uuid option \<Rightarrow> db \<Rightarrow> pg_error + db" where
  "event_suggestions_insert fault new_id now t de lo da u d =
     (case fault of
        Some e \<Rightarrow> Inl e
      | None \<Rightarrow> Inr (d\<lparr>event_suggestions := event_suggestions d @
          [\<lparr>sg_id = new_id, sg_title = t, sg_description = de, sg_location = lo,
            proposed_date = da, created_by = u, sg_created_at = now\<rparr>]\<rparr>))"

text \<open>
  \<^verbatim>\<open>from('event_suggestions').delete().eq('id', s)\<close>. Both referencing tables declare
  \<^verbatim>\<open>ON DELETE CASCADE\<close>, so the votes and comments of the deleted rows go with them.
\<close>

definition event_suggestions_delete :: "pg_error option \<Rightarrow> uuid \<Rightarrow> db \<Rightarrow> pg_error + db" where
  "event_suggestions_delete fault s d =
     (case fault of
        Some e \<Rightarrow> Inl e
      | None \<Rightarrow> Inr (d\<lparr>event_suggestions := filter (\<lambda>r. sg_id r \<noteq> s) (event_suggestions d),
                      event_votes := filter (\<lambda>r. suggestion_id r \<noteq> Some s) (event_votes d),
                      event_comments := filter (\<lambda>r. c_suggestion_id r \<noteq> Some s) (event_comments d)\<rparr>))"

text \<open>\<^verbatim>\<open>from('events').insert([insert])\<close>\<close>

definition events_insert ::
  "pg_error option \<Rightarrow> uuid \<Rightarrow> timestamptz \<Rightarrow> event_insert \<Rightarrow> db \<Rightarrow> pg_error + db" where
  "events_insert fault new_id now ins d =
     (case fault of
        Some e \<Rightarrow> Inl e
      | None \<Rightarrow> Inr (d\<lparr>events := events d @
          [\<lparr>title = title ins, description = description ins, location = location ins,
            event_date = event_date ins, organizer_id = organizer_id ins,
            ev_id = new_id, ev_created_at = now\<rparr>]\<rparr>))"

text \<open>
  \<^verbatim>\<open>from('event_suggestions').select('*, event_votes(id)').order('created_at', { ascending: true })\<close>:
  every suggestion with the ids of the votes that reference it.
\<close>

definition embedded_votes :: "db \<Rightarrow> uuid \<Rightarrow> uuid list" where
  "embedded_votes d s = map v_id (filter (\<lambda>v. suggestion_id v = Some s) (event_votes d))"

definition event_suggestions_select_votes ::
  "pg_error option \<Rightarrow> db \<Rightarrow> pg_error + (suggestion_row \<times> uuid list) list" where
  "event_suggestions_select_votes fault d =
     (case fault of
        Some e \<Rightarrow> Inl e
      | None \<Rightarrow> Inr (map (\<lambda>r. (r, embedded_votes d (sg_id r)))
                      (sort_key sg_created_at (event_suggestions d))))"

text \<open>
  \<^verbatim>\<open>select(`*, event_votes(id), event_comments(id, content, created_at, commenter_id)`)
  .order('created_at', { ascending: false })\<close>: the order is that of the suggestions; the
  embedded rows carry no order clause and come as the table stores them.
\<close>

record embedded_comment =
  ec_id :: uuid
  ec_content :: js_string
  ec_created_at :: timestamptz
  ec_commenter_id :: "uuid option"

definition embedded_comments :: "db \<Rightarrow> uuid \<Rightarrow> embedded_comment list" where
  "embedded_comments d s =
     map (\<lambda>c. \<lparr>ec_id = c_id c, ec_content = content c, ec_created_at = c_created_at c,
               ec_commenter_id = commenter_id c\<rparr>)
         (filter (\<lambda>c. c_suggestion_id c = Some s) (event_comments d))"

definition event_suggestions_select_feed ::
  "pg_error option \<Rightarrow> db \<Rightarrow> pg_error + (suggestion_row \<times> uuid list \<times> embedded_comment list) list" where
  "event_suggestions_select_feed fault d =
     (case fault of
        Some e \<Rightarrow> Inl e
      | None \<Rightarrow> Inr (map (\<lambda>r. (r, embedded_votes d (sg_id r), embedded_comments d (sg_id r)))
                      (rev (sort_key sg_created_at (event_suggestions d)))))"

subsection \<open>The suggestion feed: \<^verbatim>\<open>components/EventSuggestions.tsx\<close>\<close>

text \<open>
  \<^verbatim>\<open>fetchSuggestions\<close>: each fetched row becomes a \<^verbatim>\<open>Suggestion\<close> with
  \<^verbatim>\<open>vote_count\<close>, \<^verbatim>\<open>votes\<close> and \<^verbatim>\<open>comments\<close>; the component renders
  \<^verbatim>\<open>s.comments\<close> with \<^verbatim>\<open>map\<close>, in the order of the list. On an error the list on
  screen is not replaced and an error toast is shown.
\<close>

record Suggestion =
  row :: suggestion_row
  vote_count :: nat
  votes :: "uuid list"
  comments :: "embedded_comment list"

definition fetchSuggestions :: "pg_error option \<Rightarrow> db \<Rightarrow> pg_error + Suggestion list" where
  "fetchSuggestions fault d =
     (case event_suggestions_select_feed fault d of
        Inl error \<Rightarrow> Inl error
      | Inr data \<Rightarrow> Inr (map (\<lambda>(s, event_votes_s, event_comments_s).
          \<lparr>row = s, vote_count = length event_votes_s, votes = event_votes_s,
           comments = event_comments_s\<rparr>) data))"

text \<open>
  \<^verbatim>\<open>handleVote\<close>. The environment of one call: the signed-in user
  (\<^verbatim>\<open>userRes.data.user?.id\<close>, which \<^verbatim>\<open>getUser\<close> is taken to deliver), the fault of
  each of the three requests, and the defaults the database fills into a new row. The
  outcome is what the user sees: the sign-in prompt, the toast \<^verbatim>\<open>Removed vote\<close>, a new
  vote, or the error toast of the \<^verbatim>\<open>catch\<close> block. The call of \<^verbatim>\<open>fetchSuggestions\<close>
  that follows a successful request only reads the database and is not part of the
  result.
\<close>

record vote_env =
  voter :: "uuid option"
  vote_select_fault :: "pg_error option"
  vote_delete_fault :: "pg_error option"
  vote_insert_fault :: "pg_error option"
  vote_new_id :: uuid
  vote_now :: timestamptz

datatype vote_outcome = Vote_login_required | Vote_removed | Vote_inserted | Vote_error pg_error

definition handleVote :: "vote_env \<Rightarrow> uuid \<Rightarrow> db \<Rightarrow> vote_outcome \<times> db" where
  "handleVote env suggestionId d =
     (if js_not (voter env) then (Vote_login_required, d)
      else
        let userId = the (voter env) in
        case event_votes_select (vote_select_fault env) suggestionId userId d of
          Inl selErr \<Rightarrow> (Vote_error selErr, d)
        | Inr existing \<Rightarrow>
            if length existing > 0 then
              (case event_votes_delete_pair (vote_delete_fault env) suggestionId userId d of
                 Inl delErr \<Rightarrow> (Vote_error delErr, d)
               | Inr d' \<Rightarrow> (Vote_removed, d'))
            else
              (case event_votes_insert (vote_insert_fault env) (vote_new_id env) (vote_now env)
                      suggestionId userId d of
                 Inl error \<Rightarrow> (Vote_error error, d)
               | Inr d' \<Rightarrow> (Vote_inserted, d')))"

text \<open>
  \<^verbatim>\<open>handleComment\<close>. \<^verbatim>\<open>commentText\<close> is the component's record of the text typed
  under each suggestion; the function returns it with the database. The first check
  returns without a toast and before the user is looked up.
\<close>

record comment_env =
  commenter :: "uuid option"
  comment_insert_fault :: "pg_error option"
  comment_new_id :: uuid
  comment_now :: timestamptz

datatype comment_outcome =
  Comment_returned | Comment_login_required | Comment_inserted | Comment_error pg_error

definition handleComment ::
  "comment_env \<Rightarrow> (uuid \<rightharpoonup> js_string) \<Rightarrow> uuid \<Rightarrow> db \<Rightarrow>
   comment_outcome \<times> (uuid \<rightharpoonup> js_string) \<times> db" where
  "handleComment env commentText suggestionId d =
     (let content = map_option js_trim (commentText suggestionId) in
      if js_not content then (Comment_returned, commentText, d)
      else if js_not (commenter env) then (Comment_login_required, commentText, d)
      else
        case event_comments_insert (comment_insert_fault env) (comment_new_id env)
               (comment_now env) suggestionId (the content) (the (commenter env)) d of
          Inl error \<Rightarrow> (Comment_error error, commentText, d)
        | Inr d' \<Rightarrow> (Comment_inserted, commentText(suggestionId \<mapsto> []), d'))"

subsection \<open>Suggesting an event: \<^verbatim>\<open>pages/suggest-event.tsx\<close>\<close>

record submit_env =
  submitter :: "uuid option"
  submit_insert_fault :: "pg_error option"
  submit_new_id :: uuid
  submit_now :: timestamptz

datatype submit_outcome = Submit_thanks | Submit_error pg_error

text \<open>
  \<^verbatim>\<open>handleSubmit\<close>: the four fields of the form and the user id (or \<^verbatim>\<open>null\<close>) go into
  one insert; the outcome is the toast \<^verbatim>\<open>Thanks!\<close> or the error toast.
\<close>

text \<open>\<^verbatim>\<open>x || null\<close> for a string \<open>x\<close>.\<close>

definition or_null :: "js_string \<Rightarrow> js_string option" where
  "or_null x = (if x = [] then None else Some x)"

definition handleSubmit ::
  "submit_env \<Rightarrow> js_string \<Rightarrow> js_string \<Rightarrow> js_string \<Rightarrow> js_string \<Rightarrow> db \<Rightarrow> submit_outcome \<times> db" where
  "handleSubmit env title_field description_field location_field date_field d =
     (case event_suggestions_insert (submit_insert_fault env) (submit_new_id env) (submit_now env)
             title_field (Some description_field) (or_null location_field) (or_null date_field)
             (submitter env) d of
        Inl error \<Rightarrow> (Submit_error error, d)
      | Inr d' \<Rightarrow> (Submit_thanks, d'))"

subsection \<open>The promotion endpoint: \<^verbatim>\<open>pages/api/promote-suggestions.ts\<close>\<close>

text \<open>
  The environment of one run: the two variables of \<^verbatim>\<open>process.env\<close> the handler
  reads, the fault of the fetch, and for each candidate the faults of its four requests
  and the defaults of the event row. A candidate is named by its id, the primary key of
  its table. \<open>EVENT_PROMOTE_THRESHOLD\<close> is \<open>None\<close> when
  the variable is unset or empty, and otherwise what \<^verbatim>\<open>Number\<close> makes of its text.
\<close>

record candidate_env =
  event_insert_fault :: "pg_error option"
  votes_delete_fault :: "pg_error option"
  comments_delete_fault :: "pg_error option"
  suggestion_delete_fault :: "pg_error option"
  event_new_id :: uuid
  event_now :: timestamptz

record handler_env =
  SERVICE_ROLE_KEY :: "string option"
  EVENT_PROMOTE_THRESHOLD :: "js_number option"
  fetch_fault :: "pg_error option"
  candidate :: "uuid \<Rightarrow> candidate_env"

datatype handler_error = Missing_service_role_key | Thrown pg_error

datatype json = Error_json handler_error | Promoted_json "uuid list"

datatype response = Response (status: nat) (body: json)

text \<open>\<^verbatim>\<open>Number(process.env.EVENT_PROMOTE_THRESHOLD || '5')\<close>\<close>

definition VOTE_THRESHOLD :: "handler_env \<Rightarrow> js_number" where
  "VOTE_THRESHOLD env = (case EVENT_PROMOTE_THRESHOLD env of None \<Rightarrow> Num 5 | Some n \<Rightarrow> n)"

text \<open>The record \<^verbatim>\<open>insert\<close> built from a suggestion.\<close>

definition insert_of :: "suggestion_row \<Rightarrow> event_insert" where
  "insert_of s =
     \<lparr>title = sg_title s, description = sg_description s, location = sg_location s,
      event_date = proposed_date s, organizer_id = created_by s\<rparr>"

text \<open>An awaited request whose \<^verbatim>\<open>error\<close> is not read.\<close>

definition discard_error :: "pg_error + db \<Rightarrow> db \<Rightarrow> db" where
  "discard_error r d = (case r of Inl _ \<Rightarrow> d | Inr d' \<Rightarrow> d')"

text \<open>The \<^verbatim>\<open>for (const s of toPromote)\<close> loop, with \<^verbatim>\<open>promoted\<close> and the database.\<close>

fun promote_loop ::
  "(uuid \<Rightarrow> candidate_env) \<Rightarrow> (suggestion_row \<times> uuid list) list \<Rightarrow> uuid list \<Rightarrow> db \<Rightarrow> uuid list \<times> db" where
  "promote_loop env [] promoted d = (promoted, d)"
| "promote_loop env (s # rest) promoted d =
     (let e = env (sg_id (fst s)) in
      case events_insert (event_insert_fault e) (event_new_id e) (event_now e) (insert_of (fst s)) d of
        Inl insErr \<Rightarrow> promote_loop env rest promoted d
      | Inr d1 \<Rightarrow>
          let d2 = discard_error (event_votes_delete (votes_delete_fault e) (sg_id (fst s)) d1) d1;
              d3 = discard_error (event_comments_delete (comments_delete_fault e) (sg_id (fst s)) d2) d2;
              d4 = discard_error (event_suggestions_delete (suggestion_delete_fault e) (sg_id (fst s)) d3) d3
          in promote_loop env rest (promoted @ [sg_id (fst s)]) d4)"

definition toPromote :: "handler_env \<Rightarrow> (suggestion_row \<times> uuid list) list \<Rightarrow> (suggestion_row \<times> uuid list) list" where
  "toPromote env suggestions = filter (\<lambda>s. js_ge (length (snd s)) (VOTE_THRESHOLD env)) suggestions"

definition handler :: "handler_env \<Rightarrow> db \<Rightarrow> response \<times> db" where
  "handler env d =
     (if js_not (SERVICE_ROLE_KEY env) then (Response 500 (Error_json Missing_service_role_key), d)
      else
        case event_suggestions_select_votes (fetch_fault env) d of
          Inl error \<Rightarrow> (Response 500 (Error_json (Thrown error)), d)
        | Inr suggestions \<Rightarrow>
            let (promoted, d') = promote_loop (candidate env) (toPromote env suggestions) [] d
            in (Response 200 (Promoted_json promoted), d'))"

subsection \<open>Sequences of operations\<close>

text \<open>
  One operation of a user or of the scheduler, with the environment it meets. A comment
  operation carries the \<^verbatim>\<open>commentText\<close> of the browser it comes from.
\<close>

datatype operation =
    CastVote vote_env uuid
  | AddComment comment_env "uuid \<rightharpoonup> js_string" uuid
  | CreateSuggestion submit_env js_string js_string js_string js_string
  | RunPromotion handler_env

fun apply_operation :: "operation \<Rightarrow> db \<Rightarrow> db" where
  "apply_operation (CastVote env s) d = snd (handleVote env s d)"
| "apply_operation (AddComment env commentText s) d = snd (snd (handleComment env commentText s d))"
| "apply_operation (CreateSuggestion env t de lo da) d = snd (handleSubmit env t de lo da d)"
| "apply_operation (RunPromotion env) d = snd (handler env d)"

fun run :: "operation list \<Rightarrow> db \<Rightarrow> db" where
  "run [] d = d"
| "run (x # xs) d = run xs (apply_operation x d)"

text \<open>
  Repeated calls of \<^verbatim>\<open>handleVote\<close> on one suggestion, one environment per call: the
  outcomes in order, and the database after the last call.
\<close>

fun cast_votes :: "vote_env list \<Rightarrow> uuid \<Rightarrow> db \<Rightarrow> vote_outcome list \<times> db" where
  "cast_votes [] s d = ([], d)"
| "cast_votes (env # envs) s d =
     (let (r, d') = handleVote env s d; (rs, d'') = cast_votes envs s d' in (r # rs, d''))"

definition vote_succeeded :: "vote_outcome \<Rightarrow> bool" where
  "vote_succeeded r = (r = Vote_inserted \<or> r = Vote_removed)"

subsection \<open>Notions used in the statements\<close>

text \<open>
  The constraint \<^verbatim>\<open>UNIQUE (suggestion_id, voter_id)\<close> as a property of a database: no
  two vote rows agree on both columns (rows with a \<^verbatim>\<open>NULL\<close> in one of them never
  conflict).
\<close>

definition votes_unique :: "db \<Rightarrow> bool" where
  "votes_unique d =
     distinct (map (\<lambda>r. (suggestion_id r, voter_id r))
       (filter (\<lambda>r. suggestion_id r \<noteq> None \<and> voter_id r \<noteq> None) (event_votes d)))"

text \<open>The votes and the comments of a suggestion, as rows.\<close>

definition votes_of :: "db \<Rightarrow> uuid \<Rightarrow> vote_row list" where
  "votes_of d s = filter (\<lambda>v. suggestion_id v = Some s) (event_votes d)"

definition comments_of :: "db \<Rightarrow> uuid \<Rightarrow> comment_row list" where
  "comments_of d s = filter (\<lambda>c. c_suggestion_id c = Some s) (event_comments d)"

text \<open>The vote count the handler compares with the threshold.\<close>

definition qualifies :: "handler_env \<Rightarrow> db \<Rightarrow> uuid \<Rightarrow> bool" where
  "qualifies env d s = js_ge (length (embedded_votes d s)) (VOTE_THRESHOLD env)"

text \<open>What the fetch of the handler returns when it does not fail.\<close>

definition fetched :: "db \<Rightarrow> (suggestion_row \<times> uuid list) list" where
  "fetched d = map (\<lambda>r. (r, embedded_votes d (sg_id r))) (sort_key sg_created_at (event_suggestions d))"

text \<open>
  The ids of a list of candidates, and what the loop does for an id: the event insert
  succeeds; the suggestion row, its votes, its comments are deleted (by their own request
  or through the cascade).
\<close>

definition candidate_ids :: "(suggestion_row \<times> uuid list) list \<Rightarrow> uuid set" where
  "candidate_ids cs = sg_id ` fst ` set cs"

definition inserted :: "(uuid \<Rightarrow> candidate_env) \<Rightarrow> uuid \<Rightarrow> bool" where
  "inserted env i = (event_insert_fault (env i) = None)"

definition suggestion_removed ::
  "(uuid \<Rightarrow> candidate_env) \<Rightarrow> (suggestion_row \<times> uuid list) list \<Rightarrow> uuid \<Rightarrow> bool" where
  "suggestion_removed env cs i =
     (i \<in> candidate_ids cs \<and> inserted env i \<and> suggestion_delete_fault (env i) = None)"

definition votes_removed ::
  "(uuid \<Rightarrow> candidate_env) \<Rightarrow> (suggestion_row \<times> uuid list) list \<Rightarrow> uuid \<Rightarrow> bool" where
  "votes_removed env cs i =
     (i \<in> candidate_ids cs \<and> inserted env i \<and>
      (votes_delete_fault (env i) = None \<or> suggestion_delete_fault (env i) = None))"

definition comments_removed ::
  "(uuid \<Rightarrow> candidate_env) \<Rightarrow> (suggestion_row \<times> uuid list) list \<Rightarrow> uuid \<Rightarrow> bool" where
  "comments_removed env cs i =
     (i \<in> candidate_ids cs \<and> inserted env i \<and>
      (comments_delete_fault (env i) = None \<or> suggestion_delete_fault (env i) = None))"

definition referenced :: "uuid option \<Rightarrow> (uuid \<Rightarrow> bool) \<Rightarrow> bool" where
  "referenced r P = (case r of None \<Rightarrow> False | Some i \<Rightarrow> P i)"

text \<open>The event row that a successful insert for suggestion \<open>s\<close> adds.\<close>

definition event_of :: "(uuid \<Rightarrow> candidate_env) \<Rightarrow> suggestion_row \<Rightarrow> event_row" where
  "event_of env s =
     \<lparr>title = sg_title s, description = sg_description s, location = sg_location s,
      event_date = proposed_date s, organizer_id = created_by s,
      ev_id = event_new_id (env (sg_id s)), ev_created_at = event_now (env (sg_id s))\<rparr>"

text \<open>
  A run that fully succeeds: the credential is there, the fetch succeeds, and so does
  every request made for every candidate.
\<close>

definition fully_succeeds :: "handler_env \<Rightarrow> db \<Rightarrow> bool" where
  "fully_succeeds env d =
     (\<not> js_not (SERVICE_ROLE_KEY env) \<and> fetch_fault env = None \<and>
      (\<forall>c \<in> set (toPromote env (fetched d)).
         event_insert_fault (candidate env (sg_id (fst c))) = None \<and>
         votes_delete_fault (candidate env (sg_id (fst c))) = None \<and>
         comments_delete_fault (candidate env (sg_id (fst c))) = None \<and>
         suggestion_delete_fault (candidate env (sg_id (fst c))) = None))"

text \<open>
  The same environment with other outcomes of the three cleanup deletes of each
  candidate.
\<close>

definition with_cleanup_faults ::
  "(uuid \<Rightarrow> pg_error option) \<Rightarrow> (uuid \<Rightarrow> pg_error option) \<Rightarrow> (uuid \<Rightarrow> pg_error option) \<Rightarrow>
   handler_env \<Rightarrow> handler_env" where
  "with_cleanup_faults fv fc fs env =
     env\<lparr>candidate := \<lambda>i. (candidate env i)\<lparr>votes_delete_fault := fv i,
            comments_delete_fault := fc i, suggestion_delete_fault := fs i\<rparr>\<rparr>"

text \<open>
  A comment text that is blank after trimming: absent, or made of white space only.
\<close>

definition blank :: "js_string option \<Rightarrow> bool" where
  "blank t = (case t of None \<Rightarrow> True | Some x \<Rightarrow> \<forall>c \<in> set x. js_whitespace c)"

subsection \<open>Example data\<close>

text \<open>
  A small database for the concrete instances below: suggestions \<open>s1\<close> (two votes, two
  comments stored with the later one first) and \<open>s2\<close> (one vote).
\<close>

definition example_suggestion :: "uuid \<Rightarrow> timestamptz \<Rightarrow> suggestion_row" where
  "example_suggestion i t =
     \<lparr>sg_id = i, sg_title = [80, 105, 99, 110, 105, 99], sg_description = Some [70, 117, 110],
      sg_location = None, proposed_date = Some [50, 48, 50, 53], created_by = Some ''u1'',
      sg_created_at = t\<rparr>"

definition example_vote :: "uuid \<Rightarrow> uuid \<Rightarrow> uuid \<Rightarrow> vote_row" where
  "example_vote i s u = \<lparr>v_id = i, suggestion_id = Some s, voter_id = Some u, v_created_at = 3\<rparr>"

definition example_comment :: "uuid \<Rightarrow> uuid \<Rightarrow> timestamptz \<Rightarrow> comment_row" where
  "example_comment i s t =
     \<lparr>c_id = i, c_suggestion_id = Some s, commenter_id = Some ''u2'', content = [72, 105],
      c_created_at = t\<rparr>"

definition example_db :: db where
  "example_db =
     \<lparr>events = [],
      event_suggestions = [example_suggestion ''s1'' 1, example_suggestion ''s2'' 2],
      event_votes = [example_vote ''v1'' ''s1'' ''u1'', example_vote ''v2'' ''s1'' ''u2'',
                     example_vote ''v3'' ''s2'' ''u1''],
      event_comments = [example_comment ''c1'' ''s1'' 7, example_comment ''c2'' ''s1'' 5]\<rparr>"

text \<open>A signed-in user whose requests all succeed.\<close>

definition vote_as :: "uuid \<Rightarrow> vote_env" where
  "vote_as u =
     \<lparr>voter = Some u, vote_select_fault = None, vote_delete_fault = None,
      vote_insert_fault = None, vote_new_id = ''v9'', vote_now = 9\<rparr>"

definition comment_as :: "uuid option \<Rightarrow> comment_env" where
  "comment_as u =
     \<lparr>commenter = u, comment_insert_fault = None, comment_new_id = ''c9'', comment_now = 9\<rparr>"

definition submit_as :: "uuid option \<Rightarrow> submit_env" where
  "submit_as u =
     \<lparr>submitter = u, submit_insert_fault = None, submit_new_id = ''s9'', submit_now = 9\<rparr>"

text \<open>
  Candidate environments: every request succeeds; the event insert fails; the insert
  succeeds and the three deletes fail.
\<close>

definition all_succeed :: "uuid \<Rightarrow> candidate_env" where
  "all_succeed i =
     \<lparr>event_insert_fault = None, votes_delete_fault = None, comments_delete_fault = None,
      suggestion_delete_fault = None, event_new_id = ''e'' @ i, event_now = 9\<rparr>"

definition insert_fails :: "uuid \<Rightarrow> candidate_env" where
  "insert_fails i = (all_succeed i)\<lparr>event_insert_fault := Some (Failure ''timeout'')\<rparr>"

definition deletes_fail :: "uuid \<Rightarrow> candidate_env" where
  "deletes_fail i =
     (all_succeed i)\<lparr>votes_delete_fault := Some (Failure ''timeout''),
                     comments_delete_fault := Some (Failure ''timeout''),
                     suggestion_delete_fault := Some (Failure ''timeout'')\<rparr>"

definition promotion_env :: "string option \<Rightarrow> int \<Rightarrow> (uuid \<Rightarrow> candidate_env) \<Rightarrow> handler_env" where
  "promotion_env key t c =
     \<lparr>SERVICE_ROLE_KEY = key, EVENT_PROMOTE_THRESHOLD = Some (Num t), fetch_fault = None,
      candidate = c\<rparr>"

text \<open>The feed of the example database, newest suggestion first.\<close>

definition example_feed :: "Suggestion list" where
  "example_feed =
     [\<lparr>row = example_suggestion ''s2'' 2, vote_count = 1, votes = [''v3''], comments = []\<rparr>,
      \<lparr>row = example_suggestion ''s1'' 1, vote_count = 2, votes = [''v1'', ''v2''],
       comments =
         [\<lparr>ec_id = ''c1'', ec_content = [72, 105], ec_created_at = 7,
           ec_commenter_id = Some ''u2''\<rparr>,
          \<lparr>ec_id = ''c2'', ec_content = [72, 105], ec_created_at = 5,
           ec_commenter_id = Some ''u2''\<rparr>]\<rparr>]"

lemmas example_defs = example_suggestion_def example_vote_def example_comment_def example_db_def
  vote_as_def comment_as_def submit_as_def all_succeed_def insert_fails_def deletes_fail_def
  promotion_env_def

section \<open>What a run of the promotion endpoint does to each table\<close>

text \<open>
  The loop is characterised table by table: the ids it reports, the events it appends,
  and the rows of the three other tables that survive it.
\<close>

lemmas request_defs = events_insert_def event_votes_delete_def event_comments_delete_def
  event_suggestions_delete_def discard_error_def insert_of_def

lemma loop_promoted:
  "fst (promote_loop env cs P d) =
     P @ map (sg_id \<circ> fst) (filter (\<lambda>c. inserted env (sg_id (fst c))) cs)"
  by (induction cs arbitrary: P d)
     (auto simp: request_defs inserted_def Let_def split: option.splits)

lemma loop_events:
  "events (snd (promote_loop env cs P d)) =
     events d @ map (event_of env \<circ> fst) (filter (\<lambda>c. inserted env (sg_id (fst c))) cs)"
  by (induction cs arbitrary: P d)
     (auto simp: request_defs inserted_def event_of_def Let_def split: option.splits)

lemma loop_suggestions:
  "event_suggestions (snd (promote_loop env cs P d)) =
     filter (\<lambda>r. \<not> suggestion_removed env cs (sg_id r)) (event_suggestions d)"
proof (induction cs arbitrary: P d)
  case Nil
  then show ?case by (simp add: suggestion_removed_def candidate_ids_def)
next
  case (Cons c cs)
  show ?case
    by (auto simp: Cons.IH request_defs inserted_def suggestion_removed_def candidate_ids_def
          Let_def split: option.splits intro!: filter_cong)
qed

lemma loop_votes:
  "event_votes (snd (promote_loop env cs P d)) =
     filter (\<lambda>v. \<not> referenced (suggestion_id v) (votes_removed env cs)) (event_votes d)"
proof (induction cs arbitrary: P d)
  case Nil
  then show ?case
    by (simp add: votes_removed_def candidate_ids_def referenced_def split: option.splits)
next
  case (Cons c cs)
  show ?case
    by (auto simp: Cons.IH request_defs inserted_def votes_removed_def candidate_ids_def
          Let_def referenced_def split: option.splits intro!: filter_cong)
qed

lemma loop_comments:
  "event_comments (snd (promote_loop env cs P d)) =
     filter (\<lambda>v. \<not> referenced (c_suggestion_id v) (comments_removed env cs)) (event_comments d)"
proof (induction cs arbitrary: P d)
  case Nil
  then show ?case
    by (simp add: comments_removed_def candidate_ids_def referenced_def split: option.splits)
next
  case (Cons c cs)
  show ?case
    by (auto simp: Cons.IH request_defs inserted_def comments_removed_def candidate_ids_def
          Let_def referenced_def split: option.splits intro!: filter_cong)
qed

lemma handler_no_key:
  "js_not (SERVICE_ROLE_KEY env) \<Longrightarrow>
     handler env d = (Response 500 (Error_json Missing_service_role_key), d)"
  by (simp add: handler_def)

lemma handler_fetch_fails:
  "\<not> js_not (SERVICE_ROLE_KEY env) \<Longrightarrow> fetch_fault env = Some e \<Longrightarrow>
     handler env d = (Response 500 (Error_json (Thrown e)), d)"
  by (simp add: handler_def event_suggestions_select_votes_def)

lemma handler_runs:
  "\<not> js_not (SERVICE_ROLE_KEY env) \<Longrightarrow> fetch_fault env = None \<Longrightarrow>
     handler env d =
       (Response 200 (Promoted_json
          (fst (promote_loop (candidate env) (toPromote env (fetched d)) [] d))),
        snd (promote_loop (candidate env) (toPromote env (fetched d)) [] d))"
  by (simp add: handler_def event_suggestions_select_votes_def fetched_def split: prod.splits)

lemma handler_cases:
  obtains "js_not (SERVICE_ROLE_KEY env)" and
    "handler env d = (Response 500 (Error_json Missing_service_role_key), d)"
  | e where "\<not> js_not (SERVICE_ROLE_KEY env)" and "fetch_fault env = Some e" and
    "handler env d = (Response 500 (Error_json (Thrown e)), d)"
  | "\<not> js_not (SERVICE_ROLE_KEY env)" and "fetch_fault env = None" and
    "handler env d =
       (Response 200 (Promoted_json
          (fst (promote_loop (candidate env) (toPromote env (fetched d)) [] d))),
        snd (promote_loop (candidate env) (toPromote env (fetched d)) [] d))"
  using handler_no_key [of env d] handler_fetch_fails [of env _ d] handler_runs [of env d]
  by (cases "js_not (SERVICE_ROLE_KEY env)"; cases "fetch_fault env") auto

lemma handler_votes:
  "\<exists>Q. event_votes (snd (handler env d)) = filter Q (event_votes d)"
proof (cases env d rule: handler_cases)
  case 1
  then have "event_votes (snd (handler env d)) = filter (\<lambda>_. True) (event_votes d)" by simp
  then show ?thesis by blast
next
  case (2 e)
  then have "event_votes (snd (handler env d)) = filter (\<lambda>_. True) (event_votes d)" by simp
  then show ?thesis by blast
next
  case 3
  then show ?thesis using loop_votes by (metis snd_conv)
qed

section \<open>The vote ledger\<close>

subsection \<open>Counting the vote rows of a pair\<close>
lemma filter_length_mono:
  "(\<And>x. x \<in> set xs \<Longrightarrow> P x \<Longrightarrow> Q x) \<Longrightarrow> length (filter P xs) \<le> length (filter Q xs)"
  by (induction xs) auto

lemma distinct_key_count:
  "distinct (map f xs) \<Longrightarrow> length (filter (\<lambda>x. f x = k) xs) \<le> Suc 0"
proof (induction xs)
  case Nil
  then show ?case by simp
next
  case (Cons x xs)
  show ?case
  proof (cases "f x = k")
    case True
    from Cons.prems have "f x \<notin> f ` set xs" by simp
    with True have "filter (\<lambda>x. f x = k) xs = []"
      unfolding filter_empty_conv by (metis imageI)
    with True show ?thesis by simp
  next
    case False
    with Cons show ?thesis by simp
  qed
qed

lemma votes_unique_count:
  assumes "votes_unique d"
  shows "length (vote_rows d s u) \<le> Suc 0"
proof -
  let ?nn = "\<lambda>r. suggestion_id r \<noteq> None \<and> voter_id r \<noteq> None"
  let ?key = "\<lambda>r. (suggestion_id r, voter_id r)"
  have "vote_rows d s u = filter (\<lambda>r. ?key r = (Some s, Some u)) (filter ?nn (event_votes d))"
    unfolding vote_rows_def by (auto intro: filter_cong)
  moreover have "distinct (map ?key (filter ?nn (event_votes d)))"
    using assms by (simp add: votes_unique_def)
  ultimately show ?thesis
    using distinct_key_count [of ?key "filter ?nn (event_votes d)" "(Some s, Some u)"] by simp
qed

lemma votes_unique_empty: "votes_unique empty_db"
  by (simp add: votes_unique_def empty_db_def)

text \<open>The three ways in which the vote table changes.\<close>

lemma vote_rows_filtered:
  "event_votes d' = filter Q (event_votes d) \<Longrightarrow> length (vote_rows d' s u) \<le> length (vote_rows d s u)"
  unfolding vote_rows_def by (auto intro!: filter_length_mono)

lemma vote_rows_same:
  "event_votes d' = event_votes d \<Longrightarrow> vote_rows d' s u = vote_rows d s u"
  by (simp add: vote_rows_def)

lemma vote_rows_insert:
  "event_votes_insert fault i n s u d = Inr d' \<Longrightarrow>
     vote_rows d s u = [] \<and>
     vote_rows d' s' u' = vote_rows d s' u' @ (if s' = s \<and> u' = u then
        [\<lparr>v_id = i, suggestion_id = Some s, voter_id = Some u, v_created_at = n\<rparr>] else [])"
  by (auto simp: event_votes_insert_def vote_rows_def split: option.splits if_splits)

lemma vote_rows_delete_pair:
  assumes "event_votes_delete_pair fault s u d = Inr d'"
  shows "vote_rows d' s' u' = (if s' = s \<and> u' = u then [] else vote_rows d s' u')"
proof -
  from assms have "event_votes d' =
      filter (\<lambda>r. \<not> (suggestion_id r = Some s \<and> voter_id r = Some u)) (event_votes d)"
    by (auto simp: event_votes_delete_pair_def split: option.splits)
  then have "vote_rows d' s' u' =
      filter (\<lambda>r. \<not> (suggestion_id r = Some s \<and> voter_id r = Some u) \<and>
                 suggestion_id r = Some s' \<and> voter_id r = Some u') (event_votes d)"
    by (simp add: vote_rows_def)
  also have "\<dots> = (if s' = s \<and> u' = u then [] else vote_rows d s' u')"
  proof (cases "s' = s \<and> u' = u")
    case True
    then show ?thesis by (auto simp: filter_empty_conv)
  next
    case False
    have "filter (\<lambda>r. \<not> (suggestion_id r = Some s \<and> voter_id r = Some u) \<and>
                 suggestion_id r = Some s' \<and> voter_id r = Some u') (event_votes d) =
          filter (\<lambda>r. suggestion_id r = Some s' \<and> voter_id r = Some u') (event_votes d)"
      using False by (intro filter_cong [OF refl]) auto
    with False show ?thesis by (auto simp: vote_rows_def)
  qed
  finally show ?thesis .
qed

lemma handleVote_cases:
  assumes "handleVote env s d = (r, d')"
  shows "(d' = d \<and> \<not> vote_succeeded r)
       \<or> (r = Vote_removed \<and> voter env \<noteq> None \<and> vote_rows d s (the (voter env)) \<noteq> [] \<and>
            event_votes_delete_pair (vote_delete_fault env) s (the (voter env)) d = Inr d')
       \<or> (r = Vote_inserted \<and> voter env \<noteq> None \<and> vote_rows d s (the (voter env)) = [] \<and>
            event_votes_insert (vote_insert_fault env) (vote_new_id env) (vote_now env) s (the (voter env)) d = Inr d')"
  using assms
  by (cases "voter env")
     (auto simp: handleVote_def event_votes_select_def vote_succeeded_def Let_def
           split: if_splits sum.splits option.splits)

lemma handleVote_toggle:
  assumes "handleVote env s d = (r, d')" and "vote_succeeded r" and "voter env = Some u"
  shows "length (vote_rows d' s u) = (if vote_rows d s u = [] then 1 else 0)"
  using handleVote_cases [OF assms(1)] assms(2,3)
  by (auto dest!: vote_rows_insert [where s' = s and u' = u]
                  vote_rows_delete_pair [where s' = s and u' = u])

lemma cast_votes_parity:
  assumes "length (vote_rows d s u) \<le> 1"
    and "\<forall>env \<in> set envs. voter env = Some u"
    and "\<forall>r \<in> set (fst (cast_votes envs s d)). vote_succeeded r"
  shows "length (vote_rows (snd (cast_votes envs s d)) s u) =
           (length (vote_rows d s u) + length envs) mod 2"
  using assms
proof (induction envs arbitrary: d)
  case Nil
  then show ?case by auto
next
  case (Cons env envs)
  obtain r d' where step: "handleVote env s d = (r, d')" by (cases "handleVote env s d")
  obtain rs d'' where rest: "cast_votes envs s d' = (rs, d'')" by (cases "cast_votes envs s d'")
  from Cons.prems(3) step rest have ok: "vote_succeeded r" and oks: "\<forall>r \<in> set rs. vote_succeeded r"
    by auto
  from Cons.prems(2) have u: "voter env = Some u" and us: "\<forall>env \<in> set envs. voter env = Some u"
    by auto
  have one: "length (vote_rows d' s u) = (if vote_rows d s u = [] then 1 else 0)"
    by (rule handleVote_toggle [OF step ok u])
  then have "length (vote_rows d' s u) \<le> 1" by auto
  from Cons.IH [OF this us] oks rest
  have "length (vote_rows d'' s u) = (length (vote_rows d' s u) + length envs) mod 2" by simp
  moreover have "(length (vote_rows d' s u) + length envs) mod 2 =
                 (length (vote_rows d s u) + Suc (length envs)) mod 2"
  proof (cases "vote_rows d s u = []")
    case True
    with one show ?thesis by simp
  next
    case False
    with Cons.prems(1) have "length (vote_rows d s u) = 1" by (cases "vote_rows d s u") auto
    with one False show ?thesis by simp
  qed
  ultimately show ?case using step rest by simp
qed

text \<open>
  Claim C2. \<^verbatim>\<open>handleVote\<close> is a toggle. Start from a database with no vote row of voter
  \<open>u\<close> on suggestion \<open>s\<close>; let the same signed-in user \<open>u\<close> call it \<open>n\<close> times on \<open>s\<close>,
  and let every call succeed (a vote was inserted or removed). Then exactly one row for
  \<open>(s, u)\<close> exists when \<open>n\<close> is odd and none when \<open>n\<close> is even.
\<close>

theorem castVote_toggle:
  assumes "vote_rows d s u = []"
    and "\<forall>env \<in> set envs. voter env = Some u"
    and "\<forall>r \<in> set (fst (cast_votes envs s d)). vote_succeeded r"
  shows "length (vote_rows (snd (cast_votes envs s d)) s u) = (if odd (length envs) then 1 else 0)"
  using cast_votes_parity [of d s u envs] assms by (auto simp: odd_iff_mod_2_eq_one)

theorem castVote_toggle_witness:
  "vote_rows example_db ''s2'' ''u2'' = [] \<and>
   fst (cast_votes [vote_as ''u2'', vote_as ''u2'', vote_as ''u2''] ''s2'' example_db) =
     [Vote_inserted, Vote_removed, Vote_inserted] \<and>
   length (vote_rows (snd (cast_votes [vote_as ''u2'', vote_as ''u2'', vote_as ''u2''] ''s2''
     example_db)) ''s2'' ''u2'') = 1"
proof -
  have a: "vote_rows example_db ''s2'' ''u2'' = []"
    by (simp add: vote_rows_def example_defs)
  have b: "\<forall>env \<in> set [vote_as ''u2'', vote_as ''u2'', vote_as ''u2'']. voter env = Some ''u2''"
    by (simp add: vote_as_def)
  have c: "fst (cast_votes [vote_as ''u2'', vote_as ''u2'', vote_as ''u2''] ''s2'' example_db) =
     [Vote_inserted, Vote_removed, Vote_inserted]"
    by (simp add: handleVote_def event_votes_select_def event_votes_insert_def
          event_votes_delete_pair_def vote_rows_def example_defs Let_def)
  then have d: "\<forall>r \<in> set (fst (cast_votes [vote_as ''u2'', vote_as ''u2'', vote_as ''u2''] ''s2''
      example_db)). vote_succeeded r"
    by (simp add: vote_succeeded_def)
  from castVote_toggle [OF a b d] a c show ?thesis by simp
qed

subsection \<open>Uniqueness of the vote of a pair\<close>

text \<open>
  The storage layer enforces the constraint by itself: an insert that goes through leaves
  at most one row for every pair, whether or not the caller looked first.
\<close>

lemma event_votes_insert_at_most_one:
  assumes "\<And>s u. length (vote_rows d s u) \<le> Suc 0"
    and "event_votes_insert fault i n s u d = Inr d'"
  shows "length (vote_rows d' s' u') \<le> Suc 0"
  using vote_rows_insert [OF assms(2), of s' u'] assms(1) [of s' u'] by (auto split: if_splits)

lemma handleComment_votes: "event_votes (snd (snd (handleComment env ct s d))) = event_votes d"
  by (auto simp: handleComment_def event_comments_insert_def Let_def split: option.splits)

lemma handleSubmit_votes: "event_votes (snd (handleSubmit env t de lo da d)) = event_votes d"
  by (auto simp: handleSubmit_def event_suggestions_insert_def split: option.splits)

lemma handleVote_at_most_one:
  assumes "\<And>s u. length (vote_rows d s u) \<le> Suc 0"
  shows "length (vote_rows (snd (handleVote env s d)) s' u') \<le> Suc 0"
proof -
  obtain r d' where step: "handleVote env s d = (r, d')" by (cases "handleVote env s d")
  from handleVote_cases [OF step] show ?thesis
  proof (elim disjE conjE)
    assume "d' = d"
    with step assms show ?thesis by simp
  next
    assume "event_votes_delete_pair (vote_delete_fault env) s (the (voter env)) d = Inr d'"
    from vote_rows_delete_pair [OF this, of s' u'] step assms [of s' u'] show ?thesis by simp
  next
    assume "event_votes_insert (vote_insert_fault env) (vote_new_id env) (vote_now env) s
              (the (voter env)) d = Inr d'"
    from vote_rows_insert [OF this, of s' u'] step assms [of s' u'] show ?thesis
      by (auto split: if_splits)
  qed
qed

lemma apply_operation_at_most_one:
  assumes "\<And>s u. length (vote_rows d s u) \<le> Suc 0"
  shows "length (vote_rows (apply_operation x d) s u) \<le> Suc 0"
proof (cases x)
  case (CastVote env s')
  then show ?thesis using handleVote_at_most_one [OF assms] by simp
next
  case (AddComment env ct s')
  then show ?thesis using assms [of s u] by (simp add: vote_rows_same [OF handleComment_votes])
next
  case (CreateSuggestion env t de lo da)
  then show ?thesis using assms [of s u] by (simp add: vote_rows_same [OF handleSubmit_votes])
next
  case (RunPromotion env)
  obtain Q where "event_votes (snd (handler env d)) = filter Q (event_votes d)"
    using handler_votes by blast
  from vote_rows_filtered [OF this, of s u] assms [of s u] RunPromotion show ?thesis by simp
qed

lemma run_at_most_one:
  "(\<And>s u. length (vote_rows d s u) \<le> Suc 0) \<Longrightarrow> length (vote_rows (run xs d) s u) \<le> Suc 0"
proof (induction xs arbitrary: d)
  case Nil
  then show ?case by simp
next
  case (Cons x xs)
  show ?case
    using Cons.IH [of "apply_operation x d"] apply_operation_at_most_one [OF Cons.prems] by simp
qed

text \<open>
  Claim C1. From a database that satisfies \<^verbatim>\<open>UNIQUE (suggestion_id, voter_id)\<close>, after
  every sequence of operations (votes, comments, new suggestions, promotion runs, each
  in any environment) at most one vote row exists for every pair of a suggestion and a
  voter.
\<close>

theorem vote_uniqueness:
  assumes "votes_unique d"
  shows "length (vote_rows (run xs d) s u) \<le> 1"
  using run_at_most_one [of d xs s u] votes_unique_count [OF assms] by simp

theorem vote_uniqueness_witness:
  "votes_unique example_db \<and>
   length (vote_rows (run [CastVote (vote_as ''u2'') ''s2'', CastVote (vote_as ''u1'') ''s2'',
       AddComment (comment_as (Some ''u1'')) [''s1'' \<mapsto> [72, 105]] ''s1'',
       CreateSuggestion (submit_as (Some ''u2'')) [66, 66, 81] [] [] [],
       RunPromotion (promotion_env (Some ''key'') 2 deletes_fail),
       CastVote (vote_as ''u2'') ''s1''] example_db) ''s1'' ''u2'') \<le> 1"
proof -
  have a: "votes_unique example_db"
    by (simp add: votes_unique_def example_defs)
  from vote_uniqueness [OF a] a show ?thesis by blast
qed

section \<open>The promotion endpoint\<close>

lemma candidate_ids_toPromote:
  "i \<in> candidate_ids (toPromote env (fetched d)) \<longleftrightarrow>
     i \<in> sg_id ` set (event_suggestions d) \<and> qualifies env d i"
  by (auto simp: candidate_ids_def toPromote_def fetched_def qualifies_def image_iff)

lemma promoted_set:
  "set (fst (promote_loop env cs [] d)) = {i \<in> candidate_ids cs. inserted env i}"
  by (auto simp: loop_promoted candidate_ids_def)

lemma handler_promoted:
  assumes "\<not> js_not (SERVICE_ROLE_KEY env)" and "fetch_fault env = None"
  shows "\<exists>P. fst (handler env d) = Response 200 (Promoted_json P) \<and>
           set P = {i \<in> sg_id ` set (event_suggestions d).
                      qualifies env d i \<and> event_insert_fault (candidate env i) = None}"
  using handler_runs [OF assms, of d] 
  by (auto simp: promoted_set candidate_ids_toPromote inserted_def)

lemma vote_count: "length (embedded_votes d s) = length (votes_of d s)"
  by (simp add: embedded_votes_def votes_of_def)

text \<open>
  Claim C5. Without the service role key (unset or empty) the handler answers with status
  500 and the error payload, and returns the database as it received it: no event is
  created and no suggestion, vote or comment is deleted.
\<close>

theorem missing_credential:
  assumes "js_not (SERVICE_ROLE_KEY env)"
  shows "handler env d = (Response 500 (Error_json Missing_service_role_key), d)"
  using assms by (simp add: handler_def)

theorem missing_credential_witness:
  "js_not (SERVICE_ROLE_KEY (promotion_env None 1 all_succeed)) \<and>
   handler (promotion_env None 1 all_succeed) example_db =
     (Response 500 (Error_json Missing_service_role_key), example_db) \<and>
   handler (promotion_env (Some []) 1 all_succeed) example_db =
     (Response 500 (Error_json Missing_service_role_key), example_db)"
proof -
  have a: "js_not (SERVICE_ROLE_KEY (promotion_env None 1 all_succeed))"
    by (simp add: promotion_env_def)
  have b: "js_not (SERVICE_ROLE_KEY (promotion_env (Some []) 1 all_succeed))"
    by (simp add: promotion_env_def)
  from missing_credential [OF a] missing_credential [OF b] a show ?thesis by blast
qed




text \<open>
  Claim C4. In a run that has its credential and whose fetch succeeds, let the event
  insert fail for a qualifying suggestion \<open>s\<close>. Then the id of \<open>s\<close> is not reported, \<open>s\<close>
  is still in its table and its votes and comments are the same rows as before; the run
  goes on, answers with status 200, and reports every other qualifying suggestion whose
  insert succeeds.
\<close>

theorem failed_insert_skips:
  assumes "\<not> js_not (SERVICE_ROLE_KEY env)" and "fetch_fault env = None"
    and "s \<in> set (event_suggestions d)"
    and "qualifies env d (sg_id s)"
    and "event_insert_fault (candidate env (sg_id s)) = Some e"
  shows "(\<exists>P. fst (handler env d) = Response 200 (Promoted_json P) \<and> sg_id s \<notin> set P \<and>
            (\<forall>r \<in> set (event_suggestions d).
               qualifies env d (sg_id r) \<and> event_insert_fault (candidate env (sg_id r)) = None
               \<longrightarrow> sg_id r \<in> set P)) \<and>
         s \<in> set (event_suggestions (snd (handler env d))) \<and>
         votes_of (snd (handler env d)) (sg_id s) = votes_of d (sg_id s) \<and>
         comments_of (snd (handler env d)) (sg_id s) = comments_of d (sg_id s)"
proof -
  let ?cs = "toPromote env (fetched d)"
  let ?d' = "snd (promote_loop (candidate env) ?cs [] d)"
  have d': "snd (handler env d) = ?d'"
    using handler_runs [OF assms(1,2), of d] by simp
  have not_ins: "\<not> inserted (candidate env) (sg_id s)"
    using assms(5) by (simp add: inserted_def)
  from handler_promoted [OF assms(1,2), of d] obtain P where
    P: "fst (handler env d) = Response 200 (Promoted_json P)"
       "set P = {i \<in> sg_id ` set (event_suggestions d).
                   qualifies env d i \<and> event_insert_fault (candidate env i) = None}"
    by blast
  have 1: "\<exists>P. fst (handler env d) = Response 200 (Promoted_json P) \<and> sg_id s \<notin> set P \<and>
            (\<forall>r \<in> set (event_suggestions d).
               qualifies env d (sg_id r) \<and> event_insert_fault (candidate env (sg_id r)) = None
               \<longrightarrow> sg_id r \<in> set P)"
    using P assms(5) by (intro exI [of _ P]) auto
  have 2: "s \<in> set (event_suggestions ?d')"
    using assms(3) not_ins by (simp add: loop_suggestions suggestion_removed_def)
  have 3: "votes_of ?d' (sg_id s) = votes_of d (sg_id s)"
    unfolding votes_of_def loop_votes filter_filter using not_ins
    by (intro filter_cong [OF refl]) (auto simp: referenced_def votes_removed_def)
  have 4: "comments_of ?d' (sg_id s) = comments_of d (sg_id s)"
    unfolding comments_of_def loop_comments filter_filter using not_ins
    by (intro filter_cong [OF refl]) (auto simp: referenced_def comments_removed_def)
  from 1 2 3 4 show ?thesis unfolding d' by blast
qed

theorem failed_insert_skips_witness:
  "qualifies (promotion_env (Some ''key'') 1 (all_succeed(''s1'' := insert_fails ''s1'')))
     example_db (sg_id (example_suggestion ''s1'' 1)) \<and>
   (\<exists>P. fst (handler (promotion_env (Some ''key'') 1 (all_succeed(''s1'' := insert_fails ''s1'')))
            example_db) = Response 200 (Promoted_json P) \<and>
        sg_id (example_suggestion ''s1'' 1) \<notin> set P \<and> ''s2'' \<in> set P) \<and>
   example_suggestion ''s1'' 1 \<in> set (event_suggestions (snd (handler
     (promotion_env (Some ''key'') 1 (all_succeed(''s1'' := insert_fails ''s1''))) example_db))) \<and>
   votes_of (snd (handler (promotion_env (Some ''key'') 1 (all_succeed(''s1'' := insert_fails ''s1'')))
     example_db)) (sg_id (example_suggestion ''s1'' 1)) =
     votes_of example_db (sg_id (example_suggestion ''s1'' 1)) \<and>
   comments_of (snd (handler (promotion_env (Some ''key'') 1 (all_succeed(''s1'' := insert_fails ''s1'')))
     example_db)) (sg_id (example_suggestion ''s1'' 1)) =
     comments_of example_db (sg_id (example_suggestion ''s1'' 1))"
proof -
  let ?env = "promotion_env (Some ''key'') 1 (all_succeed(''s1'' := insert_fails ''s1''))"
  have a: "\<not> js_not (SERVICE_ROLE_KEY ?env)" and b: "fetch_fault ?env = None"
    by (simp_all add: promotion_env_def)
  have s1: "example_suggestion ''s1'' 1 \<in> set (event_suggestions example_db)"
    and s2: "example_suggestion ''s2'' 2 \<in> set (event_suggestions example_db)"
    by (simp_all add: example_db_def)
  have q1: "qualifies ?env example_db (sg_id (example_suggestion ''s1'' 1))"
    and q2: "qualifies ?env example_db (sg_id (example_suggestion ''s2'' 2))"
    by (simp_all add: qualifies_def embedded_votes_def VOTE_THRESHOLD_def example_defs)
  have f: "event_insert_fault (candidate ?env (sg_id (example_suggestion ''s1'' 1))) =
             Some (Failure ''timeout'')"
    by (simp add: promotion_env_def insert_fails_def all_succeed_def example_suggestion_def)
  have i2: "event_insert_fault (candidate ?env (sg_id (example_suggestion ''s2'' 2))) = None"
    by (simp add: promotion_env_def all_succeed_def example_suggestion_def)
  have id2: "sg_id (example_suggestion ''s2'' 2) = ''s2''"
    by (simp add: example_suggestion_def)
  from failed_insert_skips [OF a b s1 q1 f] s2 q2 i2 id2 q1 show ?thesis by metis
qed

text \<open>
  Claim C7. When the handler reports the id of suggestion \<open>s\<close> as promoted, the events
  table has grown by one row per reported id, in the order of the report, each built from
  a stored suggestion by \<open>event_of\<close>; the row for \<open>s\<close> has the title, description and
  location of \<open>s\<close>, its \<^verbatim>\<open>proposed_date\<close> as \<^verbatim>\<open>event_date\<close> and its \<^verbatim>\<open>created_by\<close> as
  \<^verbatim>\<open>organizer_id\<close>.
\<close>

theorem promoted_event_copies_fields:
  assumes "fst (handler env d) = Response 200 (Promoted_json P)"
    and "s \<in> set (event_suggestions d)"
    and "sg_id s \<in> set P"
  shows "\<exists>rows. P = map sg_id rows \<and> s \<in> set rows \<and> set rows \<subseteq> set (event_suggestions d) \<and>
           events (snd (handler env d)) = events d @ map (event_of (candidate env)) rows \<and>
           title (event_of (candidate env) s) = sg_title s \<and>
           description (event_of (candidate env) s) = sg_description s \<and>
           location (event_of (candidate env) s) = sg_location s \<and>
           event_date (event_of (candidate env) s) = proposed_date s \<and>
           organizer_id (event_of (candidate env) s) = created_by s"
proof (cases env d rule: handler_cases)
  case 1
  with assms(1) show ?thesis by simp
next
  case (2 e)
  with assms(1) show ?thesis by simp
next
  case 3
  let ?cs = "toPromote env (fetched d)"
  let ?rows = "map fst (filter (\<lambda>c. inserted (candidate env) (sg_id (fst c))) ?cs)"
  from 3(3) assms(1) have P: "P = map sg_id ?rows"
    by (simp add: loop_promoted)
  have sub: "set ?rows \<subseteq> set (event_suggestions d)"
    by (auto simp: toPromote_def fetched_def)
  from assms(3) P have "sg_id s \<in> candidate_ids ?cs" "inserted (candidate env) (sg_id s)"
    by (auto simp: candidate_ids_def)
  then have "qualifies env d (sg_id s)" by (simp add: candidate_ids_toPromote)
  with assms(2) have "(s, embedded_votes d (sg_id s)) \<in> set ?cs"
    by (auto simp: toPromote_def fetched_def qualifies_def)
  with \<open>inserted (candidate env) (sg_id s)\<close> have mem: "s \<in> set ?rows" by force
  have ev: "events (snd (handler env d)) = events d @ map (event_of (candidate env)) ?rows"
    using 3(3) by (simp add: loop_events)
  show ?thesis
    using P mem sub ev by (intro exI [of _ ?rows]) (simp add: event_of_def)
qed

theorem promoted_event_copies_fields_witness:
  "fst (handler (promotion_env (Some ''key'') 2 all_succeed) example_db) =
     Response 200 (Promoted_json [''s1'']) \<and>
   (\<exists>rows. [''s1''] = map sg_id rows \<and> example_suggestion ''s1'' 1 \<in> set rows \<and>
      events (snd (handler (promotion_env (Some ''key'') 2 all_succeed) example_db)) =
        events example_db @ map (event_of (candidate (promotion_env (Some ''key'') 2 all_succeed))) rows) \<and>
   event_date (event_of (candidate (promotion_env (Some ''key'') 2 all_succeed))
     (example_suggestion ''s1'' 1)) = Some [50, 48, 50, 53]"
proof -
  let ?env = "promotion_env (Some ''key'') 2 all_succeed"
  have a: "fst (handler ?env example_db) = Response 200 (Promoted_json [''s1''])"
    by (simp add: handler_def event_suggestions_select_votes_def toPromote_def
          VOTE_THRESHOLD_def embedded_votes_def request_defs Let_def example_defs)
  have s1: "example_suggestion ''s1'' 1 \<in> set (event_suggestions example_db)"
    by (simp add: example_db_def)
  have i: "sg_id (example_suggestion ''s1'' 1) \<in> set [''s1'']"
    by (simp add: example_suggestion_def)
  have p: "proposed_date (example_suggestion ''s1'' 1) = Some [50, 48, 50, 53]"
    by (simp add: example_suggestion_def)
  from promoted_event_copies_fields [OF a s1 i] a p show ?thesis by metis
qed

text \<open>
  Claim C10. In a run that has its credential and whose fetch succeeds, a qualifying
  suggestion whose event insert succeeds is reported as promoted whatever the three
  cleanup deletes return: the response is the same for every outcome of the deletes of
  every candidate, it has status 200, and it lists every qualifying suggestion whose
  insert succeeds.
\<close>

theorem cleanup_errors_ignored:
  assumes "\<not> js_not (SERVICE_ROLE_KEY env)" and "fetch_fault env = None"
    and "s \<in> set (event_suggestions d)"
    and "qualifies env d (sg_id s)"
    and "event_insert_fault (candidate env (sg_id s)) = None"
  shows "fst (handler (with_cleanup_faults fv fc fs env) d) = fst (handler env d) \<and>
         (\<exists>P. fst (handler env d) = Response 200 (Promoted_json P) \<and> sg_id s \<in> set P \<and>
            (\<forall>r \<in> set (event_suggestions d).
               qualifies env d (sg_id r) \<and> event_insert_fault (candidate env (sg_id r)) = None
               \<longrightarrow> sg_id r \<in> set P))"
proof -
  let ?env' = "with_cleanup_faults fv fc fs env"
  have k: "\<not> js_not (SERVICE_ROLE_KEY ?env')" and f: "fetch_fault ?env' = None"
    using assms(1,2) by (simp_all add: with_cleanup_faults_def)
  have t: "toPromote ?env' = toPromote env"
    by (rule ext) (simp add: toPromote_def VOTE_THRESHOLD_def with_cleanup_faults_def)
  have i: "inserted (candidate ?env') = inserted (candidate env)"
    by (rule ext) (simp add: inserted_def with_cleanup_faults_def)
  have 1: "fst (handler ?env' d) = fst (handler env d)"
    using handler_runs [OF k f, of d] handler_runs [OF assms(1,2), of d]
    by (simp add: loop_promoted t i)
  from handler_promoted [OF assms(1,2), of d] obtain P where
    P: "fst (handler env d) = Response 200 (Promoted_json P)"
       "set P = {i \<in> sg_id ` set (event_suggestions d).
                   qualifies env d i \<and> event_insert_fault (candidate env i) = None}"
    by blast
  have 2: "\<exists>P. fst (handler env d) = Response 200 (Promoted_json P) \<and> sg_id s \<in> set P \<and>
            (\<forall>r \<in> set (event_suggestions d).
               qualifies env d (sg_id r) \<and> event_insert_fault (candidate env (sg_id r)) = None
               \<longrightarrow> sg_id r \<in> set P)"
    using P assms(3,4,5) by (intro exI [of _ P]) auto
  from 1 2 show ?thesis by blast
qed

theorem cleanup_errors_ignored_witness:
  "qualifies (promotion_env (Some ''key'') 1 deletes_fail) example_db
     (sg_id (example_suggestion ''s1'' 1)) \<and>
   votes_delete_fault (candidate (promotion_env (Some ''key'') 1 deletes_fail) ''s1'') \<noteq> None \<and>
   fst (handler (with_cleanup_faults (\<lambda>i. None) (\<lambda>i. None) (\<lambda>i. None)
          (promotion_env (Some ''key'') 1 deletes_fail)) example_db) =
     fst (handler (promotion_env (Some ''key'') 1 deletes_fail) example_db) \<and>
   (\<exists>P. fst (handler (promotion_env (Some ''key'') 1 deletes_fail) example_db) =
          Response 200 (Promoted_json P) \<and> sg_id (example_suggestion ''s1'' 1) \<in> set P)"
proof -
  let ?env = "promotion_env (Some ''key'') 1 deletes_fail"
  have a: "\<not> js_not (SERVICE_ROLE_KEY ?env)" and b: "fetch_fault ?env = None"
    by (simp_all add: promotion_env_def)
  have s1: "example_suggestion ''s1'' 1 \<in> set (event_suggestions example_db)"
    by (simp add: example_db_def)
  have q1: "qualifies ?env example_db (sg_id (example_suggestion ''s1'' 1))"
    by (simp add: qualifies_def embedded_votes_def VOTE_THRESHOLD_def example_defs)
  have i1: "event_insert_fault (candidate ?env (sg_id (example_suggestion ''s1'' 1))) = None"
    by (simp add: promotion_env_def deletes_fail_def all_succeed_def)
  have f: "votes_delete_fault (candidate ?env ''s1'') \<noteq> None"
    by (simp add: promotion_env_def deletes_fail_def all_succeed_def)
  from cleanup_errors_ignored [OF a b s1 q1 i1, of "\<lambda>i. None" "\<lambda>i. None" "\<lambda>i. None"] q1 f
  show ?thesis by blast
qed

subsection \<open>Running the endpoint twice\<close>

lemma js_ge_mono: "js_ge n t \<Longrightarrow> n \<le> m \<Longrightarrow> js_ge m t"
  by (cases t) auto

lemma embedded_votes_filtered:
  "event_votes d' = filter Q (event_votes d) \<Longrightarrow>
     length (embedded_votes d' s) \<le> length (embedded_votes d s)"
  unfolding embedded_votes_def by (auto intro!: filter_length_mono)

lemma toPromote_empty:
  assumes "\<And>r. r \<in> set (event_suggestions d) \<Longrightarrow> \<not> qualifies env d (sg_id r)"
  shows "toPromote env (fetched d) = []"
  using assms by (auto simp: toPromote_def fetched_def qualifies_def filter_empty_conv)

lemma nothing_left_to_promote:
  assumes "fully_succeeds env d" and "VOTE_THRESHOLD env' = VOTE_THRESHOLD env"
  shows "toPromote env' (fetched (snd (handler env d))) = []"
proof (rule toPromote_empty)
  fix r
  let ?cs = "toPromote env (fetched d)"
  let ?d' = "snd (handler env d)"
  assume r: "r \<in> set (event_suggestions ?d')"
  from assms(1) have k: "\<not> js_not (SERVICE_ROLE_KEY env)" and f: "fetch_fault env = None"
    by (simp_all add: fully_succeeds_def)
  have d': "?d' = snd (promote_loop (candidate env) ?cs [] d)"
    using handler_runs [OF k f, of d] by simp
  from r have in_d: "r \<in> set (event_suggestions d)"
    and kept: "\<not> suggestion_removed (candidate env) ?cs (sg_id r)"
    unfolding d' by (simp_all add: loop_suggestions)
  have "\<not> qualifies env d (sg_id r)"
  proof
    assume q: "qualifies env d (sg_id r)"
    with in_d have c: "sg_id r \<in> candidate_ids ?cs" by (simp add: candidate_ids_toPromote)
    then obtain c' where "c' \<in> set ?cs" "sg_id (fst c') = sg_id r"
      by (auto simp: candidate_ids_def)
    with assms(1) have "event_insert_fault (candidate env (sg_id r)) = None"
      "suggestion_delete_fault (candidate env (sg_id r)) = None"
      by (auto simp: fully_succeeds_def)
    with c kept show False by (simp add: suggestion_removed_def inserted_def)
  qed
  moreover have "length (embedded_votes ?d' (sg_id r)) \<le> length (embedded_votes d (sg_id r))"
    using handler_votes [of env d] embedded_votes_filtered by blast
  ultimately show "\<not> qualifies env' ?d' (sg_id r)"
    using js_ge_mono assms(2) by (auto simp: qualifies_def)
qed

text \<open>
  Claim C6. After a run that fully succeeded, a second run with the same threshold, on
  the database the first run left, promotes nothing: it leaves the database as it is,
  and the list it reports is empty (whatever the environment of the second run).
\<close>

theorem promotion_idempotent:
  assumes "fully_succeeds env d" and "VOTE_THRESHOLD env' = VOTE_THRESHOLD env"
  shows "snd (handler env' (snd (handler env d))) = snd (handler env d) \<and>
         (\<forall>P. fst (handler env' (snd (handler env d))) = Response 200 (Promoted_json P) \<longrightarrow> P = []) \<and>
         (\<not> js_not (SERVICE_ROLE_KEY env') \<and> fetch_fault env' = None \<longrightarrow>
            fst (handler env' (snd (handler env d))) = Response 200 (Promoted_json []))"
proof (cases env' "snd (handler env d)" rule: handler_cases)
  case 1
  then show ?thesis by auto
next
  case (2 e)
  then show ?thesis by auto
next
  case 3
  with nothing_left_to_promote [OF assms] show ?thesis by simp
qed

theorem promotion_idempotent_witness:
  "fully_succeeds (promotion_env (Some ''key'') 2 all_succeed) example_db \<and>
   fst (handler (promotion_env (Some ''key'') 2 all_succeed) example_db) =
     Response 200 (Promoted_json [''s1'']) \<and>
   fst (handler (promotion_env (Some ''key'') 2 deletes_fail)
     (snd (handler (promotion_env (Some ''key'') 2 all_succeed) example_db))) =
     Response 200 (Promoted_json [])"
proof -
  let ?env = "promotion_env (Some ''key'') 2 all_succeed"
  let ?env' = "promotion_env (Some ''key'') 2 deletes_fail"
  have a: "fully_succeeds ?env example_db"
    by (simp add: fully_succeeds_def toPromote_def fetched_def VOTE_THRESHOLD_def
          embedded_votes_def example_defs)
  have b: "VOTE_THRESHOLD ?env' = VOTE_THRESHOLD ?env"
    by (simp add: VOTE_THRESHOLD_def promotion_env_def)
  have c: "\<not> js_not (SERVICE_ROLE_KEY ?env') \<and> fetch_fault ?env' = None"
    by (simp add: promotion_env_def)
  have d: "fst (handler ?env example_db) = Response 200 (Promoted_json [''s1''])"
    by (simp add: handler_def event_suggestions_select_votes_def toPromote_def
          VOTE_THRESHOLD_def embedded_votes_def request_defs Let_def example_defs)
  from promotion_idempotent [OF a b] a c d show ?thesis by blast
qed

section \<open>Comments\<close>

lemma js_trim_blank: "js_trim x = [] \<longleftrightarrow> (\<forall>c \<in> set x. js_whitespace c)"
proof
  assume "js_trim x = []"
  then have all: "\<forall>c \<in> set (dropWhile js_whitespace x). js_whitespace c"
    by (simp add: js_trim_def dropWhile_eq_Nil_conv)
  have "dropWhile js_whitespace x = []"
  proof (rule ccontr)
    assume ne: "dropWhile js_whitespace x \<noteq> []"
    then have "\<not> js_whitespace (hd (dropWhile js_whitespace x))" by (rule hd_dropWhile)
    moreover from ne have "hd (dropWhile js_whitespace x) \<in> set (dropWhile js_whitespace x)"
      by (rule hd_in_set)
    ultimately show False using all by blast
  qed
  then show "\<forall>c \<in> set x. js_whitespace c" by (simp add: dropWhile_eq_Nil_conv)
next
  assume "\<forall>c \<in> set x. js_whitespace c"
  then show "js_trim x = []" by (auto simp: js_trim_def dest: set_dropWhileD)
qed

lemma js_not_trim: "js_not (map_option js_trim t) = blank t"
  by (cases t) (simp_all add: blank_def js_trim_blank)

text \<open>
  Claim C9, as amended. \<^verbatim>\<open>handleComment\<close> with a text that is blank after trimming, or
  with nothing typed, returns at its first check, silently: no toast is shown, nothing is
  sent to the database, which is returned unchanged in every environment, and the typed
  text is kept. This check comes before the user is looked up, so it is also what happens
  when no user is signed in. With a text that is not blank and no signed-in user the
  function answers with the sign-in prompt, again without a request. With no signed-in
  user nothing is ever written.
\<close>

theorem comment_validation:
  "(blank (commentText s) \<longrightarrow>
      handleComment env commentText s d = (Comment_returned, commentText, d)) \<and>
   (\<not> blank (commentText s) \<and> js_not (commenter env) \<longrightarrow>
      handleComment env commentText s d = (Comment_login_required, commentText, d)) \<and>
   (js_not (commenter env) \<longrightarrow>
      snd (snd (handleComment env commentText s d)) = d \<and>
      fst (handleComment env commentText s d) \<in> {Comment_returned, Comment_login_required})"
  by (simp add: handleComment_def Let_def js_not_trim)

theorem comment_validation_witness:
  "blank (Some [32, 9, 10]) \<and>
   handleComment (comment_as (Some ''u1'')) [''s1'' \<mapsto> [32, 9, 10]] ''s1'' example_db =
     (Comment_returned, [''s1'' \<mapsto> [32, 9, 10]], example_db) \<and>
   \<not> blank (Some [72, 105]) \<and> js_not (commenter (comment_as None)) \<and>
   handleComment (comment_as None) [''s1'' \<mapsto> [72, 105]] ''s1'' example_db =
     (Comment_login_required, [''s1'' \<mapsto> [72, 105]], example_db)"
proof -
  have a: "blank ([''s1'' \<mapsto> [32, 9, 10]] ''s1'')"
    by (simp add: blank_def js_whitespace_def)
  have b: "\<not> blank ([''s1'' \<mapsto> [72, 105]] ''s1'')"
    by (simp add: blank_def js_whitespace_def)
  have c: "js_not (commenter (comment_as None))"
    by (simp add: comment_as_def)
  from comment_validation [of "[''s1'' \<mapsto> [32, 9, 10]]" "''s1''" "comment_as (Some ''u1'')" example_db]
       comment_validation [of "[''s1'' \<mapsto> [72, 105]]" "''s1''" "comment_as None" example_db]
       a b c
  show ?thesis by simp
qed

text \<open>
  The claim as it was stated fails where no user is signed in and the text is blank or
  was never typed: the function takes the silent return of the first check and shows no
  sign-in prompt.
\<close>

theorem comment_validation_counterexample:
  "js_not (commenter (comment_as None)) \<and>
   handleComment (comment_as None) [''s1'' \<mapsto> [32, 9, 10]] ''s1'' example_db =
     (Comment_returned, [''s1'' \<mapsto> [32, 9, 10]], example_db) \<and>
   handleComment (comment_as None) Map.empty ''s1'' example_db =
     (Comment_returned, Map.empty, example_db) \<and>
   fst (handleComment (comment_as None) Map.empty ''s1'' example_db) \<noteq> Comment_login_required"
  by (simp add: handleComment_def js_trim_def js_whitespace_def comment_as_def Let_def)

text \<open>
  Claim C8, as amended. For every suggestion of the feed, the comment list shown is the
  list of the suggestion's comments in the order in which the comments table stores
  them: \<^verbatim>\<open>fetchSuggestions\<close> orders the suggestions and applies no order to the embedded
  comments. The creation times shown are therefore ascending exactly when they are in
  the stored order.
\<close>

theorem feed_comments_in_storage_order:
  assumes "fetchSuggestions fault d = Inr items" and "it \<in> set items"
  shows "row it \<in> set (event_suggestions d) \<and>
         comments it = embedded_comments d (sg_id (row it)) \<and>
         map ec_created_at (comments it) = map c_created_at (comments_of d (sg_id (row it)))"
  using assms
  by (auto simp: fetchSuggestions_def event_suggestions_select_feed_def embedded_comments_def
        comments_of_def comp_def split: option.splits)

theorem feed_comments_in_storage_order_witness:
  "fetchSuggestions None example_db = Inr example_feed \<and>
   example_feed ! 1 \<in> set example_feed \<and>
   map ec_created_at (comments (example_feed ! 1)) =
     map c_created_at (comments_of example_db (sg_id (row (example_feed ! 1))))"
proof -
  have a: "fetchSuggestions None example_db = Inr example_feed"
    by (simp add: fetchSuggestions_def event_suggestions_select_feed_def embedded_votes_def
          embedded_comments_def example_defs example_feed_def)
  have b: "example_feed ! 1 \<in> set example_feed"
    by (simp add: example_feed_def)
  from feed_comments_in_storage_order [OF a b] a b show ?thesis by blast
qed

text \<open>
  The claim as it was stated fails on the example database, whose comments table stores
  the comment created at time 7 before the one created at time 5 (\<^verbatim>\<open>now()\<close> is the start
  of the inserting transaction, not the moment the row is written): the feed shows them
  in that order.
\<close>

theorem feed_comments_counterexample:
  "fetchSuggestions None example_db = Inr example_feed \<and>
   map ec_created_at (comments (example_feed ! 1)) = [7, 5] \<and>
   \<not> sorted (map ec_created_at (comments (example_feed ! 1)))"
  by (simp add: fetchSuggestions_def event_suggestions_select_feed_def embedded_votes_def
        embedded_comments_def example_defs example_feed_def)

end
